theory Spec2Isabelle
  imports Main
begin

section \<open>The store: an SQLite database\<close>

text \<open>
  The program keeps all of its state in one SQLite database and changes it only through
  SQL statements. The model is therefore a database value, an interpreter for the SQL
  statement forms that occur in \<^verbatim>\<open>internal/storage/db.go\<close>, and the Go functions
  written over that interpreter, each returning its error together with the database it
  leaves behind.

  A value is NULL, an integer or a text. A row maps column names to values. A table has
  its column definitions, in declaration order, and its rows. Of a column definition the
  model keeps what \<^verbatim>\<open>PRAGMA table_info\<close> reports (name, declared type, NOT NULL, primary
  key) and the UNIQUE and \<^verbatim>\<open>CHECK (col IN (...))\<close> constraints. DEFAULT clauses are not
  kept: no statement of the program leaves out a column that has one. REFERENCES clauses
  are not kept: the connection string does not switch foreign keys on, so SQLite does not
  enforce them. Type affinity is not modelled: values are stored as they are given.
\<close>

datatype val = Null | IntV int | TextV string

type_synonym row = "string \<rightharpoonup> val"

record coldef =
  cname :: string
  ctype :: string
  notnull :: bool
  pk :: bool
  uniq :: bool
  check_in :: "string list option"

record table =
  cols :: "coldef list"
  rows :: "row list"

record index =
  iname :: string
  itable :: string
  icol :: string

record db =
  tables :: "string \<rightharpoonup> table"
  indexes :: "index list"

datatype error =
    NoSuchTable string
  | NoSuchColumn string
  | TableExists string
  | IndexExists string
  | NameTaken string
  | ConstraintFailed string
  | DatatypeMismatch
  | ArityMismatch
  | Unsupported
  | ErrNoRows
  | ScanError
  | Wrapped string error

text \<open>The value of column \<open>c\<close> in row \<open>r\<close>; a column the row does not carry reads as NULL.\<close>

definition getv :: "row \<Rightarrow> string \<Rightarrow> val" where
  "getv r c = (case r c of None \<Rightarrow> Null | Some v \<Rightarrow> v)"

definition colnames :: "table \<Rightarrow> string list" where
  "colnames t = map cname (cols t)"

text \<open>
  Shorthands for the column definitions of the schema: a TEXT column and an INTEGER
  column, each with its NOT NULL flag, and an \<^verbatim>\<open>INTEGER PRIMARY KEY\<close> column.
\<close>

definition textcol :: "string \<Rightarrow> bool \<Rightarrow> coldef" where
  "textcol n nn = \<lparr>cname = n, ctype = ''TEXT'', notnull = nn, pk = False, uniq = False, check_in = None\<rparr>"

definition intcol :: "string \<Rightarrow> bool \<Rightarrow> coldef" where
  "intcol n nn = \<lparr>cname = n, ctype = ''INTEGER'', notnull = nn, pk = False, uniq = False, check_in = None\<rparr>"

definition pkcol :: "string \<Rightarrow> coldef" where
  "pkcol n = \<lparr>cname = n, ctype = ''INTEGER'', notnull = False, pk = True, uniq = False, check_in = None\<rparr>"

subsection \<open>Inserting a row\<close>

text \<open>
  An \<^verbatim>\<open>INTEGER PRIMARY KEY\<close> column is the table's rowid: a NULL there is replaced by
  one more than the largest rowid in use (1 in an empty table), a text is a datatype
  mismatch, and an integer that another row already has is a constraint failure.
\<close>

definition pk_col :: "coldef list \<Rightarrow> string option" where
  "pk_col cs = (case filter pk cs of [] \<Rightarrow> None | c # _ \<Rightarrow> Some (cname c))"

definition rowid_at :: "string \<Rightarrow> row \<Rightarrow> int" where
  "rowid_at k r = (case getv r k of IntV i \<Rightarrow> i | _ \<Rightarrow> 0)"

definition next_rowid :: "string \<Rightarrow> row list \<Rightarrow> int" where
  "next_rowid k rs = (if rs = [] then 1 else Max (set (map (rowid_at k) rs)) + 1)"

definition assign_rowid :: "table \<Rightarrow> row \<Rightarrow> error + row" where
  "assign_rowid t r =
     (case pk_col (cols t) of
        None \<Rightarrow> Inr r
      | Some k \<Rightarrow>
          (case getv r k of
             Null \<Rightarrow> Inr (r(k \<mapsto> IntV (next_rowid k (rows t))))
           | TextV s \<Rightarrow> Inl DatatypeMismatch
           | IntV i \<Rightarrow> Inr r))"

text \<open>
  NOT NULL and CHECK on one column. A CHECK whose value is NULL does not fail (its
  result is NULL, not false); an integer is never equal to one of the listed texts.
\<close>

definition check_col :: "coldef \<Rightarrow> val \<Rightarrow> bool" where
  "check_col c v =
     ((if notnull c then v \<noteq> Null else True) \<and>
      (case check_in c of
         None \<Rightarrow> True
       | Some xs \<Rightarrow> (case v of Null \<Rightarrow> True | TextV s \<Rightarrow> s \<in> set xs | IntV i \<Rightarrow> False)))"

text \<open>
  Uniqueness of one column against the rows already stored: it binds primary key and
  UNIQUE columns, and NULLs never collide.
\<close>

definition unique_col :: "row list \<Rightarrow> coldef \<Rightarrow> val \<Rightarrow> bool" where
  "unique_col rs c v =
     (if (pk c \<or> uniq c) \<and> v \<noteq> Null then v \<notin> set (map (\<lambda>r. getv r (cname c)) rs) else True)"

definition violated :: "table \<Rightarrow> row \<Rightarrow> coldef option" where
  "violated t r =
     (case find (\<lambda>c. \<not> check_col c (getv r (cname c))) (cols t) of
        Some c \<Rightarrow> Some c
      | None \<Rightarrow> find (\<lambda>c. \<not> unique_col (rows t) c (getv r (cname c))) (cols t))"

definition insert_row :: "table \<Rightarrow> row \<Rightarrow> error + table" where
  "insert_row t r =
     (case assign_rowid t r of
        Inl e \<Rightarrow> Inl e
      | Inr r' \<Rightarrow>
          (case violated t r' of
             Some c \<Rightarrow> Inl (ConstraintFailed (cname c))
           | None \<Rightarrow> Inr (t\<lparr>rows := rows t @ [r']\<rparr>)))"

fun insert_rows :: "table \<Rightarrow> row list \<Rightarrow> error + table" where
  "insert_rows t [] = Inr t"
| "insert_rows t (r # rs) =
     (case insert_row t r of Inl e \<Rightarrow> Inl e | Inr t' \<Rightarrow> insert_rows t' rs)"

text \<open>A new row for table \<open>t\<close>: the listed columns get the listed values, the others NULL.\<close>

definition blank_row :: "table \<Rightarrow> row" where
  "blank_row t = (\<lambda>c. if c \<in> set (colnames t) then Some Null else None)"

definition make_row :: "table \<Rightarrow> string list \<Rightarrow> val list \<Rightarrow> row" where
  "make_row t cs vs = blank_row t ++ map_of (zip cs vs)"

subsection \<open>Statements\<close>

datatype stmt =
    CreateTable bool string "coldef list"
  | CreateIndex bool string string string
  | InsertSelect string "string list" "string list" string
  | InsertValues string "string list" "val list"
  | DropTable string
  | RenameTable string string
  | DeleteAll string
  | Update string "(string \<times> val) list" string val

text \<open>
  \<^item> \<open>CreateTable ine n cs\<close> is \<^verbatim>\<open>CREATE TABLE [IF NOT EXISTS] n (cs)\<close>, the flag saying
    whether IF NOT EXISTS is there;
  \<^item> \<open>CreateIndex ine n t c\<close> is \<^verbatim>\<open>CREATE INDEX [IF NOT EXISTS] n ON t(c)\<close>;
  \<^item> \<open>InsertSelect t cs cs' t'\<close> is \<^verbatim>\<open>INSERT INTO t (cs) SELECT cs' FROM t'\<close>;
  \<^item> \<open>InsertValues t cs vs\<close> is \<^verbatim>\<open>INSERT INTO t (cs) VALUES (vs)\<close>;
  \<^item> \<open>DropTable t\<close> is \<^verbatim>\<open>DROP TABLE t\<close>, which also drops the indexes on \<open>t\<close>;
  \<^item> \<open>RenameTable t t'\<close> is \<^verbatim>\<open>ALTER TABLE t RENAME TO t'\<close>, the indexes following;
  \<^item> \<open>DeleteAll t\<close> is \<^verbatim>\<open>DELETE FROM t\<close>;
  \<^item> \<open>Update t sets wc wv\<close> is \<^verbatim>\<open>UPDATE t SET sets WHERE wc = wv\<close>.

  A statement is atomic: it either returns the new database or an error and no change.
  Table names and index names share one namespace. An UPDATE checks NOT NULL and CHECK
  on the columns it assigns, once some row matches; the program never assigns to a
  primary key or UNIQUE column, and the interpreter refuses such an UPDATE.
\<close>

definition update_row :: "(string \<times> val) list \<Rightarrow> string \<Rightarrow> val \<Rightarrow> row \<Rightarrow> row" where
  "update_row sets wc wv r = (if getv r wc = wv then r ++ map_of sets else r)"

definition set_ok :: "table \<Rightarrow> string \<times> val \<Rightarrow> bool" where
  "set_ok t cv = list_all (\<lambda>c. cname c \<noteq> fst cv \<or> check_col c (snd cv)) (cols t)"

fun exec_stmt :: "stmt \<Rightarrow> db \<Rightarrow> error + db" where
  "exec_stmt (CreateTable ine n cs) d =
     (if tables d n \<noteq> None then (if ine then Inr d else Inl (TableExists n))
      else if n \<in> set (map iname (indexes d)) then Inl (NameTaken n)
      else Inr (d\<lparr>tables := (tables d)(n \<mapsto> \<lparr>cols = cs, rows = []\<rparr>)\<rparr>))"
| "exec_stmt (CreateIndex ine n t c) d =
     (case tables d t of
        None \<Rightarrow> Inl (NoSuchTable t)
      | Some tb \<Rightarrow>
          if tables d n \<noteq> None then Inl (NameTaken n)
          else if n \<in> set (map iname (indexes d)) then (if ine then Inr d else Inl (IndexExists n))
          else if c \<notin> set (colnames tb) then Inl (NoSuchColumn c)
          else Inr (d\<lparr>indexes := indexes d @ [\<lparr>iname = n, itable = t, icol = c\<rparr>]\<rparr>))"
| "exec_stmt (InsertSelect t cs cs' t') d =
     (case tables d t of
        None \<Rightarrow> Inl (NoSuchTable t)
      | Some tb \<Rightarrow>
          (case tables d t' of
             None \<Rightarrow> Inl (NoSuchTable t')
           | Some src \<Rightarrow>
               (case find (\<lambda>c. c \<notin> set (colnames tb)) cs of
                  Some c \<Rightarrow> Inl (NoSuchColumn c)
                | None \<Rightarrow>
                    (case find (\<lambda>c. c \<notin> set (colnames src)) cs' of
                       Some c \<Rightarrow> Inl (NoSuchColumn c)
                     | None \<Rightarrow>
                         if length cs \<noteq> length cs' then Inl ArityMismatch
                         else
                           (case insert_rows tb (map (\<lambda>r. make_row tb cs (map (getv r) cs')) (rows src)) of
                              Inl e \<Rightarrow> Inl e
                            | Inr tb' \<Rightarrow> Inr (d\<lparr>tables := (tables d)(t \<mapsto> tb')\<rparr>))))))"
| "exec_stmt (InsertValues t cs vs) d =
     (case tables d t of
        None \<Rightarrow> Inl (NoSuchTable t)
      | Some tb \<Rightarrow>
          (case find (\<lambda>c. c \<notin> set (colnames tb)) cs of
             Some c \<Rightarrow> Inl (NoSuchColumn c)
           | None \<Rightarrow>
               if length cs \<noteq> length vs then Inl ArityMismatch
               else
                 (case insert_row tb (make_row tb cs vs) of
                    Inl e \<Rightarrow> Inl e
                  | Inr tb' \<Rightarrow> Inr (d\<lparr>tables := (tables d)(t \<mapsto> tb')\<rparr>))))"
| "exec_stmt (DropTable t) d =
     (case tables d t of
        None \<Rightarrow> Inl (NoSuchTable t)
      | Some tb \<Rightarrow>
          Inr (d\<lparr>tables := (tables d)(t := None),
                 indexes := filter (\<lambda>i. itable i \<noteq> t) (indexes d)\<rparr>))"
| "exec_stmt (RenameTable t t') d =
     (case tables d t of
        None \<Rightarrow> Inl (NoSuchTable t)
      | Some tb \<Rightarrow>
          if tables d t' \<noteq> None \<or> t' \<in> set (map iname (indexes d)) then Inl (NameTaken t')
          else Inr (d\<lparr>tables := (tables d)(t := None, t' \<mapsto> tb),
                      indexes := map (\<lambda>i. if itable i = t then i\<lparr>itable := t'\<rparr> else i) (indexes d)\<rparr>))"
| "exec_stmt (DeleteAll t) d =
     (case tables d t of
        None \<Rightarrow> Inl (NoSuchTable t)
      | Some tb \<Rightarrow> Inr (d\<lparr>tables := (tables d)(t \<mapsto> tb\<lparr>rows := []\<rparr>)\<rparr>))"
| "exec_stmt (Update t sets wc wv) d =
     (case tables d t of
        None \<Rightarrow> Inl (NoSuchTable t)
      | Some tb \<Rightarrow>
          (case find (\<lambda>c. c \<notin> set (colnames tb)) (wc # map fst sets) of
             Some c \<Rightarrow> Inl (NoSuchColumn c)
           | None \<Rightarrow>
               if list_ex (\<lambda>c. (pk c \<or> uniq c) \<and> cname c \<in> set (map fst sets)) (cols tb)
               then Inl Unsupported
               else if list_ex (\<lambda>r. getv r wc = wv) (rows tb) \<and> \<not> list_all (set_ok tb) sets
               then Inl (ConstraintFailed (case find (\<lambda>cv. \<not> set_ok tb cv) sets of
                                            None \<Rightarrow> t | Some cv \<Rightarrow> fst cv))
               else Inr (d\<lparr>tables := (tables d)(t \<mapsto> tb\<lparr>rows := map (update_row sets wc wv) (rows tb)\<rparr>)\<rparr>)))"

text \<open>
  \<^verbatim>\<open>db.Exec\<close> with a string of several statements: the driver runs them one after the
  other, each committed on its own, and stops at the first one that fails. The statements
  before it stay applied. The result is the error, if any, and the database left behind.
\<close>

fun Exec :: "stmt list \<Rightarrow> db \<Rightarrow> error option \<times> db" where
  "Exec [] d = (None, d)"
| "Exec (s # ss) d = (case exec_stmt s d of Inl e \<Rightarrow> (Some e, d) | Inr d' \<Rightarrow> Exec ss d')"

subsection \<open>Queries\<close>

text \<open>
  \<^verbatim>\<open>PRAGMA table_info(t)\<close> yields one result row per column of \<open>t\<close>, and no row when
  there is no such table.
\<close>

definition table_info :: "string \<Rightarrow> db \<Rightarrow> error + coldef list" where
  "table_info n d = Inr (case tables d n of None \<Rightarrow> [] | Some t \<Rightarrow> cols t)"

text \<open>
  The first row of a scan, as \<^verbatim>\<open>LIMIT 1\<close> takes it: a table is scanned in rowid order, so
  with an integer primary key it is the row with the least key.
\<close>

definition first_row :: "table \<Rightarrow> row option" where
  "first_row t =
     (case rows t of
        [] \<Rightarrow> None
      | r # rs \<Rightarrow>
          (case pk_col (cols t) of
             None \<Rightarrow> Some r
           | Some k \<Rightarrow> Some (arg_min_list (rowid_at k) (r # rs))))"

text \<open>
  \<^verbatim>\<open>Scan\<close> into a Go \<^verbatim>\<open>int\<close>: an integer is taken as it is, a text goes through
  \<^verbatim>\<open>strconv.ParseInt(s, 10, 64)\<close> (an optional sign, then decimal digits, within 64 bits),
  NULL is an error.
\<close>

definition digit_of :: "char \<Rightarrow> nat option" where
  "digit_of c =
     (let n = (of_char c :: nat) in if 48 \<le> n \<and> n \<le> 57 then Some (n - 48) else None)"

fun parse_digits :: "string \<Rightarrow> nat \<Rightarrow> nat option" where
  "parse_digits [] acc = Some acc"
| "parse_digits (c # cs) acc =
     (case digit_of c of None \<Rightarrow> None | Some k \<Rightarrow> parse_digits cs (10 * acc + k))"

definition ParseInt :: "string \<Rightarrow> int option" where
  "ParseInt s =
     (let neg = (case s of [] \<Rightarrow> False | c # cs \<Rightarrow> c = CHR ''-'');
          ds = (case s of [] \<Rightarrow> [] | c # cs \<Rightarrow> if c = CHR ''-'' \<or> c = CHR ''+'' then cs else s)
      in if ds = [] then None
         else
           (case parse_digits ds 0 of
              None \<Rightarrow> None
            | Some n \<Rightarrow>
                (let v = (if neg then - int n else int n)
                 in if - (2 ^ 63) \<le> v \<and> v < 2 ^ 63 then Some v else None)))"

definition scan_int :: "val \<Rightarrow> error + int" where
  "scan_int v =
     (case v of
        Null \<Rightarrow> Inl ScanError
      | IntV i \<Rightarrow> Inr i
      | TextV s \<Rightarrow> (case ParseInt s of None \<Rightarrow> Inl ScanError | Some i \<Rightarrow> Inr i))"

text \<open>\<^verbatim>\<open>QueryRow("SELECT version FROM schema_version LIMIT 1").Scan(&version)\<close>\<close>

definition query_version :: "db \<Rightarrow> error + int" where
  "query_version d =
     (case tables d ''schema_version'' of
        None \<Rightarrow> Inl (NoSuchTable ''schema_version'')
      | Some t \<Rightarrow>
          if ''version'' \<notin> set (colnames t) then Inl (NoSuchColumn ''version'')
          else (case first_row t of None \<Rightarrow> Inl ErrNoRows | Some r \<Rightarrow> scan_int (getv r ''version'')))"

section \<open>The schema\<close>

definition currentSchemaVersion :: int where
  "currentSchemaVersion = 2"

definition job_statuses :: "string list" where
  "job_statuses = [''queued'', ''running'', ''done'', ''failed'']"

definition schema_version_cols :: "coldef list" where
  "schema_version_cols = [pkcol ''version'']"

definition repos_cols :: "coldef list" where
  "repos_cols =
     [pkcol ''id'', (textcol ''root_path'' True)\<lparr>uniq := True\<rparr>, textcol ''name'' True,
      textcol ''created_at'' True]"

definition commits_cols :: "coldef list" where
  "commits_cols =
     [pkcol ''id'', intcol ''repo_id'' True, (textcol ''sha'' True)\<lparr>uniq := True\<rparr>,
      textcol ''author'' True, textcol ''subject'' True, textcol ''timestamp'' True,
      textcol ''created_at'' True]"

definition review_jobs_cols :: "coldef list" where
  "review_jobs_cols =
     [pkcol ''id'', intcol ''repo_id'' True, intcol ''commit_id'' False,
      textcol ''git_ref'' True, textcol ''agent'' True,
      (textcol ''status'' True)\<lparr>check_in := Some job_statuses\<rparr>,
      textcol ''enqueued_at'' True, textcol ''started_at'' False,
      textcol ''finished_at'' False, textcol ''worker_id'' False, textcol ''error'' False]"

definition reviews_cols :: "coldef list" where
  "reviews_cols =
     [pkcol ''id'', (intcol ''job_id'' True)\<lparr>uniq := True\<rparr>, textcol ''agent'' True,
      textcol ''prompt'' True, textcol ''output'' True, textcol ''created_at'' True]"

definition responses_cols :: "coldef list" where
  "responses_cols =
     [pkcol ''id'', intcol ''commit_id'' True, textcol ''responder'' True,
      textcol ''response'' True, textcol ''created_at'' True]"

definition schema :: "stmt list" where
  "schema =
     [CreateTable True ''schema_version'' schema_version_cols,
      CreateTable True ''repos'' repos_cols,
      CreateTable True ''commits'' commits_cols,
      CreateTable True ''review_jobs'' review_jobs_cols,
      CreateTable True ''reviews'' reviews_cols,
      CreateTable True ''responses'' responses_cols,
      CreateIndex True ''idx_review_jobs_status'' ''review_jobs'' ''status'',
      CreateIndex True ''idx_review_jobs_repo'' ''review_jobs'' ''repo_id'',
      CreateIndex True ''idx_review_jobs_git_ref'' ''review_jobs'' ''git_ref'',
      CreateIndex True ''idx_commits_sha'' ''commits'' ''sha'']"

section \<open>Versioning and migration\<close>

text \<open>The loop over the result of \<^verbatim>\<open>PRAGMA table_info(review_jobs)\<close>, looking for \<^verbatim>\<open>commit_sha\<close>.\<close>

fun hasCommitSHA :: "coldef list \<Rightarrow> bool" where
  "hasCommitSHA [] = False"
| "hasCommitSHA (c # cs) = (if cname c = ''commit_sha'' then True else hasCommitSHA cs)"

definition isV1Database :: "db \<Rightarrow> bool" where
  "isV1Database d =
     (case table_info ''review_jobs'' d of Inl err \<Rightarrow> False | Inr rs \<Rightarrow> hasCommitSHA rs)"

definition getSchemaVersion :: "db \<Rightarrow> int" where
  "getSchemaVersion d = (case query_version d of Inl err \<Rightarrow> 0 | Inr version \<Rightarrow> version)"

definition setSchemaVersion :: "int \<Rightarrow> db \<Rightarrow> error option \<times> db" where
  "setSchemaVersion version d =
     (case Exec [DeleteAll ''schema_version''] d of
        (Some err, d1) \<Rightarrow> (Some err, d1)
      | (None, d1) \<Rightarrow> Exec [InsertValues ''schema_version'' [''version''] [IntV version]] d1)"

definition job_columns :: "string list" where
  "job_columns =
     [''id'', ''repo_id'', ''commit_id'', ''git_ref'', ''agent'', ''status'', ''enqueued_at'',
      ''started_at'', ''finished_at'', ''worker_id'', ''error'']"

definition v1_job_columns :: "string list" where
  "v1_job_columns =
     [''id'', ''repo_id'', ''commit_id'', ''commit_sha'', ''agent'', ''status'', ''enqueued_at'',
      ''started_at'', ''finished_at'', ''worker_id'', ''error'']"

definition v1_to_v2_script :: "stmt list" where
  "v1_to_v2_script =
     [CreateTable True ''schema_version'' schema_version_cols,
      CreateTable False ''review_jobs_new'' review_jobs_cols,
      InsertSelect ''review_jobs_new'' job_columns v1_job_columns ''review_jobs'',
      DropTable ''review_jobs'',
      RenameTable ''review_jobs_new'' ''review_jobs'',
      CreateIndex True ''idx_review_jobs_status'' ''review_jobs'' ''status'',
      CreateIndex True ''idx_review_jobs_repo'' ''review_jobs'' ''repo_id'',
      CreateIndex True ''idx_review_jobs_git_ref'' ''review_jobs'' ''git_ref'']"

definition migrateV1ToV2 :: "db \<Rightarrow> error option \<times> db" where
  "migrateV1ToV2 d =
     (case table_info ''review_jobs'' d of
        Inl err \<Rightarrow> (Some err, d)
      | Inr rs \<Rightarrow>
          if \<not> hasCommitSHA rs
          then Exec [CreateTable True ''schema_version'' schema_version_cols] d
          else Exec v1_to_v2_script d)"

definition migrate :: "db \<Rightarrow> error option \<times> db" where
  "migrate d =
     (if isV1Database d then
        (case migrateV1ToV2 d of
           (Some err, d1) \<Rightarrow> (Some (Wrapped ''migrate v1 to v2'' err), d1)
         | (None, d1) \<Rightarrow> setSchemaVersion currentSchemaVersion d1)
      else
        (let version = getSchemaVersion d in
           if version = 0 then
             (case Exec schema d of
                (Some err, d1) \<Rightarrow> (Some (Wrapped ''run schema'' err), d1)
              | (None, d1) \<Rightarrow> setSchemaVersion currentSchemaVersion d1)
           else if version \<ge> currentSchemaVersion then (None, d)
           else setSchemaVersion currentSchemaVersion d))"

section \<open>Recovery of stale jobs\<close>

definition ResetStaleJobs :: "db \<Rightarrow> error option \<times> db" where
  "ResetStaleJobs d =
     Exec [Update ''review_jobs''
             [(''status'', TextV ''queued''), (''worker_id'', Null), (''started_at'', Null)]
             ''status'' (TextV ''running'')] d"

section \<open>The legacy layout\<close>

text \<open>
  Version 1 of the job table, as \<^verbatim>\<open>TestMigrationV1ToV2\<close> creates it: \<^verbatim>\<open>commit_sha\<close> in
  the place of \<^verbatim>\<open>git_ref\<close>, \<^verbatim>\<open>commit_id\<close> NOT NULL, and no CHECK on the status.
\<close>

definition v1_review_jobs_cols :: "coldef list" where
  "v1_review_jobs_cols =
     [pkcol ''id'', intcol ''repo_id'' True, intcol ''commit_id'' True,
      textcol ''commit_sha'' True, textcol ''agent'' True, textcol ''status'' True,
      textcol ''enqueued_at'' True, textcol ''started_at'' False,
      textcol ''finished_at'' False, textcol ''worker_id'' False, textcol ''error'' False]"

text \<open>
  What the table of the current layout demands of a row: an integer identity, and the
  NOT NULL and CHECK constraints of its columns. \<open>legacy_row_ok\<close> is the same demand
  on a legacy row, read through \<^verbatim>\<open>commit_sha\<close>.
\<close>

definition is_int :: "val \<Rightarrow> bool" where
  "is_int v = (case v of IntV i \<Rightarrow> True | _ \<Rightarrow> False)"

definition job_row_ok :: "row \<Rightarrow> bool" where
  "job_row_ok r =
     (is_int (getv r ''id'') \<and> getv r ''repo_id'' \<noteq> Null \<and> getv r ''git_ref'' \<noteq> Null \<and>
      getv r ''agent'' \<noteq> Null \<and> getv r ''status'' \<in> set (map TextV job_statuses) \<and>
      getv r ''enqueued_at'' \<noteq> Null)"




section \<open>The job queue and the registries\<close>

text \<open>
  \<^verbatim>\<open>ClaimJob\<close>, \<^verbatim>\<open>EnqueueJob\<close>, \<^verbatim>\<open>GetOrCreateRepo\<close> and \<^verbatim>\<open>GetOrCreateCommit\<close> are
  called by the tests of the storage package, but the file that defines them is not part
  of the sources. They are written here from the specification, over the tables that the
  schema declares. The clock is a parameter: \<open>now\<close> is the time the call is made.
\<close>

text \<open>Modelled from the spec: the status test of a job row, \<^verbatim>\<open>status = 'queued'\<close>.\<close>

definition is_queued :: "row \<Rightarrow> bool" where
  "is_queued r = (getv r ''status'' = TextV ''queued'')"

text \<open>
  Modelled from the spec: the identity of a job, the integer in its \<^verbatim>\<open>id\<close> column, by
  which the queue is ordered (``enqueue sequence --- monotonically increasing identity'').
\<close>

definition job_id :: "row \<Rightarrow> int" where
  "job_id r = rowid_at ''id'' r"

text \<open>
  Modelled from the spec: the transition that \<^verbatim>\<open>Claim\<close> applies to the job it takes,
  ``transition it to running, recording workerID and start time = now''.
\<close>

definition claim_row :: "string \<Rightarrow> string \<Rightarrow> row \<Rightarrow> row" where
  "claim_row workerID now r =
     r(''status'' \<mapsto> TextV ''running'', ''worker_id'' \<mapsto> TextV workerID,
       ''started_at'' \<mapsto> TextV now)"

text \<open>
  Modelled from the spec: the update of \<^verbatim>\<open>Claim\<close> on one row, ``a conditional update
  guarded by the prior status'': the row with the identity of the selected job \<open>j\<close> is
  claimed if it is still queued, every other row is left alone.
\<close>

definition claim_upd :: "string \<Rightarrow> string \<Rightarrow> row \<Rightarrow> row \<Rightarrow> row" where
  "claim_upd workerID now j r =
     (if getv r ''id'' = getv j ''id'' \<and> is_queued r then claim_row workerID now r else r)"

text \<open>
  Modelled from the spec: \<^verbatim>\<open>ClaimJob(workerID)\<close>, whose source is missing. One
  indivisible step selects the oldest queued job, the one with the least identity over
  all repos, and updates it under the guard of its prior status; the result is the job
  as claimed. With no queued job the result is the explicit absence \<open>Inr None\<close>, not an
  error, and the store is not written.
\<close>

definition ClaimJob :: "string \<Rightarrow> string \<Rightarrow> db \<Rightarrow> (error + row option) \<times> db" where
  "ClaimJob workerID now d =
     (case tables d ''review_jobs'' of
        None \<Rightarrow> (Inl (NoSuchTable ''review_jobs''), d)
      | Some t \<Rightarrow>
          (case filter is_queued (rows t) of
             [] \<Rightarrow> (Inr None, d)
           | q # qs \<Rightarrow>
               (let j = arg_min_list job_id (q # qs)
                in (Inr (Some (claim_row workerID now j)),
                    d\<lparr>tables := (tables d)(''review_jobs'' \<mapsto>
                         t\<lparr>rows := map (claim_upd workerID now j) (rows t)\<rparr>)\<rparr>))))"




text \<open>
  Modelled from the spec: \<^verbatim>\<open>EnqueueJob(repoID, commitID, gitRef, agent)\<close>, whose source
  is missing: ``inserts a new job in queued, enqueue time = now'', with no
  deduplication. The identity is left to the table, which assigns the next rowid. The
  result is the job as stored.
\<close>

definition EnqueueJob ::
  "int \<Rightarrow> int \<Rightarrow> string \<Rightarrow> string \<Rightarrow> string \<Rightarrow> db \<Rightarrow> (error + row) \<times> db" where
  "EnqueueJob repoID commitID gitRef agent now d =
     (case exec_stmt (InsertValues ''review_jobs''
               [''repo_id'', ''commit_id'', ''git_ref'', ''agent'', ''status'', ''enqueued_at'']
               [IntV repoID, IntV commitID, TextV gitRef, TextV agent, TextV ''queued'',
                TextV now]) d of
        Inl e \<Rightarrow> (Inl e, d)
      | Inr d' \<Rightarrow>
          (case tables d' ''review_jobs'' of
             None \<Rightarrow> (Inl (NoSuchTable ''review_jobs''), d')
           | Some t \<Rightarrow>
               (case rev (rows t) of [] \<Rightarrow> (Inl ErrNoRows, d') | r # rs \<Rightarrow> (Inr r, d'))))"











section \<open>Notions used in the statements below\<close>


text \<open>
  The row that \<open>EnqueueJob\<close> stores in job table \<open>t\<close>: the values of the call, and the
  next rowid of \<open>t\<close> as identity.
\<close>

definition new_job :: "table \<Rightarrow> int \<Rightarrow> int \<Rightarrow> string \<Rightarrow> string \<Rightarrow> string \<Rightarrow> row" where
  "new_job t repoID commitID gitRef agent now =
     (make_row t [''repo_id'', ''commit_id'', ''git_ref'', ''agent'', ''status'', ''enqueued_at'']
        [IntV repoID, IntV commitID, TextV gitRef, TextV agent, TextV ''queued'', TextV now])
     (''id'' \<mapsto> IntV (next_rowid ''id'' (rows t)))"


section \<open>Example stores\<close>

text \<open>A version table that holds two rows, as earlier code might have left it.\<close>

definition db_two_versions :: db where
  "db_two_versions =
     \<lparr>tables = [''schema_version'' \<mapsto>
        \<lparr>cols = schema_version_cols,
         rows = [[''version'' \<mapsto> IntV 1], [''version'' \<mapsto> IntV 3]]\<rparr>],
      indexes = []\<rparr>"



text \<open>
  A job row of the current layout, and a job table with one job in each status, job 1 held
  by a worker.
\<close>

definition job_row :: "int \<Rightarrow> int \<Rightarrow> string \<Rightarrow> string \<Rightarrow> val \<Rightarrow> val \<Rightarrow> row" where
  "job_row i repo gitref st started worker =
     [''id'' \<mapsto> IntV i, ''repo_id'' \<mapsto> IntV repo, ''commit_id'' \<mapsto> IntV i,
      ''git_ref'' \<mapsto> TextV gitref, ''agent'' \<mapsto> TextV ''codex'', ''status'' \<mapsto> TextV st,
      ''enqueued_at'' \<mapsto> TextV ''2024-01-01 00:00:00'', ''started_at'' \<mapsto> started,
      ''finished_at'' \<mapsto> Null, ''worker_id'' \<mapsto> worker, ''error'' \<mapsto> Null]"

definition jobs_table :: table where
  "jobs_table =
     \<lparr>cols = review_jobs_cols,
      rows = [job_row 1 1 ''c0'' ''running'' (TextV ''2024-01-01 00:00:05'') (TextV ''worker-1''),
              job_row 2 1 ''c1'' ''queued'' Null Null,
              job_row 3 2 ''c2'' ''done'' (TextV ''2024-01-01 00:00:07'') (TextV ''worker-2''),
              job_row 4 2 ''c3'' ''failed'' (TextV ''2024-01-01 00:00:09'') (TextV ''worker-1'')]\<rparr>"

definition db_jobs :: db where
  "db_jobs =
     \<lparr>tables = [''review_jobs'' \<mapsto> jobs_table,
                ''schema_version'' \<mapsto> \<lparr>cols = schema_version_cols, rows = [[''version'' \<mapsto> IntV 2]]\<rparr>],
      indexes = []\<rparr>"

text \<open>The same store with version 1 recorded, a version between 0 and the current one.\<close>

definition db_version_one :: db where
  "db_version_one =
     \<lparr>tables = [''review_jobs'' \<mapsto> jobs_table,
                ''schema_version'' \<mapsto> \<lparr>cols = schema_version_cols, rows = [[''version'' \<mapsto> IntV 1]]\<rparr>],
      indexes = []\<rparr>"

text \<open>
  The legacy database of \<^verbatim>\<open>TestMigrationV1ToV2\<close>: one repo, one commit, one review, and
  the given job rows in the version 1 job table. \<open>legacy_ok\<close> holds the job of the test;
  in \<open>legacy_bad\<close> the job has a status outside the four that the new table checks for.
\<close>

definition legacy_row :: "int \<Rightarrow> string \<Rightarrow> string \<Rightarrow> row" where
  "legacy_row i sha st =
     [''id'' \<mapsto> IntV i, ''repo_id'' \<mapsto> IntV 1, ''commit_id'' \<mapsto> IntV 1,
      ''commit_sha'' \<mapsto> TextV sha, ''agent'' \<mapsto> TextV ''codex'', ''status'' \<mapsto> TextV st,
      ''enqueued_at'' \<mapsto> TextV ''2024-01-01 00:00:00'', ''started_at'' \<mapsto> Null,
      ''finished_at'' \<mapsto> Null, ''worker_id'' \<mapsto> Null, ''error'' \<mapsto> Null]"

definition legacy_db :: "row list \<Rightarrow> db" where
  "legacy_db js =
     \<lparr>tables =
        [''repos'' \<mapsto> \<lparr>cols = repos_cols,
           rows = [[''id'' \<mapsto> IntV 1, ''root_path'' \<mapsto> TextV ''/test/repo'',
                    ''name'' \<mapsto> TextV ''repo'', ''created_at'' \<mapsto> TextV ''2024-01-01 00:00:00'']]\<rparr>,
         ''commits'' \<mapsto> \<lparr>cols = commits_cols,
           rows = [[''id'' \<mapsto> IntV 1, ''repo_id'' \<mapsto> IntV 1, ''sha'' \<mapsto> TextV ''abc123'',
                    ''author'' \<mapsto> TextV ''Author'', ''subject'' \<mapsto> TextV ''Subject'',
                    ''timestamp'' \<mapsto> TextV ''2024-01-01T00:00:00Z'',
                    ''created_at'' \<mapsto> TextV ''2024-01-01 00:00:00'']]\<rparr>,
         ''review_jobs'' \<mapsto> \<lparr>cols = v1_review_jobs_cols, rows = js\<rparr>,
         ''reviews'' \<mapsto> \<lparr>cols = reviews_cols,
           rows = [[''id'' \<mapsto> IntV 1, ''job_id'' \<mapsto> IntV 1, ''agent'' \<mapsto> TextV ''codex'',
                    ''prompt'' \<mapsto> TextV ''prompt'', ''output'' \<mapsto> TextV ''output'',
                    ''created_at'' \<mapsto> TextV ''2024-01-01 00:00:00'']]\<rparr>,
         ''responses'' \<mapsto> \<lparr>cols = responses_cols, rows = []\<rparr>],
      indexes = []\<rparr>"


definition legacy_bad :: db where
  "legacy_bad = legacy_db [legacy_row 1 ''abc123'' ''pending'']"

text \<open>
  A job table with two queued jobs, of two repos, between a finished and a running one,
  and three workers that call \<^verbatim>\<open>Claim\<close> on it.
\<close>

definition queue_table :: table where
  "queue_table =
     \<lparr>cols = review_jobs_cols,
      rows = [job_row 1 1 ''c0'' ''done'' (TextV ''2024-01-01 00:00:05'') (TextV ''worker-1''),
              job_row 2 1 ''c1'' ''queued'' Null Null,
              job_row 3 2 ''c2'' ''queued'' Null Null,
              job_row 4 2 ''c3'' ''running'' (TextV ''2024-01-01 00:00:09'') (TextV ''worker-1'')]\<rparr>"

definition db_queue :: db where
  "db_queue = \<lparr>tables = [''review_jobs'' \<mapsto> queue_table], indexes = []\<rparr>"


text \<open>
  The store of \<^verbatim>\<open>TestJobLifecycle\<close> after its first claim: the only job is running. And a
  store whose job table is empty.
\<close>

definition idle_table :: table where
  "idle_table =
     \<lparr>cols = review_jobs_cols,
      rows = [job_row 1 1 ''abc123'' ''running'' (TextV ''2024-01-01 00:00:05'') (TextV ''worker-1'')]\<rparr>"

definition db_idle :: db where
  "db_idle = \<lparr>tables = [''review_jobs'' \<mapsto> idle_table], indexes = []\<rparr>"

definition db_no_jobs :: db where
  "db_no_jobs = \<lparr>tables = [''review_jobs'' \<mapsto> \<lparr>cols = review_jobs_cols, rows = []\<rparr>], indexes = []\<rparr>"




section \<open>Basic facts about rows and statements\<close>

lemma getv_upd [simp]: "getv (r(k \<mapsto> v)) c = (if c = k then v else getv r c)"
  by (simp add: getv_def)

lemma assign_rowid_keeps:
  "assign_rowid t r = Inr r' \<Longrightarrow> getv r c \<noteq> Null \<Longrightarrow> getv r' c = getv r c"
  by (auto simp: assign_rowid_def split: option.splits val.splits)

lemma insert_row_rows:
  "insert_row t r = Inr t' \<Longrightarrow> \<exists>r'. assign_rowid t r = Inr r' \<and> t' = t\<lparr>rows := rows t @ [r']\<rparr>"
  by (auto simp: insert_row_def split: sum.splits option.splits)

lemma getv_make_row_single: "getv (make_row t [c] [v]) c = v"
  by (simp add: make_row_def getv_def)

subsection \<open>Writing the version into a table of the declared layout\<close>

lemma pk_col_schema_version [simp]: "pk_col schema_version_cols = Some ''version''"
  by (simp add: pk_col_def schema_version_cols_def pkcol_def)

lemma make_row_version:
  "cols t = schema_version_cols \<Longrightarrow> make_row t [''version''] [IntV v] = [''version'' \<mapsto> IntV v]"
  by (rule ext)
    (simp add: make_row_def blank_row_def colnames_def schema_version_cols_def pkcol_def map_add_def)

lemma insert_version_empty:
  "cols t = schema_version_cols \<Longrightarrow> rows t = [] \<Longrightarrow>
   insert_row t [''version'' \<mapsto> IntV v] = Inr (t\<lparr>rows := [[''version'' \<mapsto> IntV v]]\<rparr>)"
  by (simp add: insert_row_def assign_rowid_def violated_def check_col_def unique_col_def
      schema_version_cols_def pkcol_def pk_col_def getv_def)

lemma setSchemaVersion_declared:
  assumes "tables d ''schema_version'' = Some t" and "cols t = schema_version_cols"
  shows "setSchemaVersion v d =
    (None, d\<lparr>tables := (tables d)(''schema_version'' \<mapsto>
       \<lparr>cols = schema_version_cols, rows = [[''version'' \<mapsto> IntV v]]\<rparr>)\<rparr>)"
proof -
  let ?t0 = "t\<lparr>rows := []\<rparr>"
  have c: "cols ?t0 = schema_version_cols" "rows ?t0 = []" using assms by simp_all
  have v: "''version'' \<in> set (colnames ?t0)"
    using assms by (simp add: colnames_def schema_version_cols_def pkcol_def)
  have t0: "?t0\<lparr>rows := [[''version'' \<mapsto> IntV v]]\<rparr> =
      \<lparr>cols = schema_version_cols, rows = [[''version'' \<mapsto> IntV v]]\<rparr>"
    using assms by simp
  have del: "exec_stmt (DeleteAll ''schema_version'') d =
      Inr (d\<lparr>tables := (tables d)(''schema_version'' \<mapsto> ?t0)\<rparr>)"
    using assms by simp
  have ins: "exec_stmt (InsertValues ''schema_version'' [''version''] [IntV v])
        (d\<lparr>tables := (tables d)(''schema_version'' \<mapsto> ?t0)\<rparr>) =
      Inr (d\<lparr>tables := (tables d)(''schema_version'' \<mapsto>
       \<lparr>cols = schema_version_cols, rows = [[''version'' \<mapsto> IntV v]]\<rparr>)\<rparr>)"
    using v by (simp add: make_row_version[OF c(1)] insert_version_empty[OF c] t0)
  show ?thesis
    by (simp add: setSchemaVersion_def del ins del: exec_stmt.simps)
qed

lemma query_version_declared:
  "tables d ''schema_version'' = Some \<lparr>cols = schema_version_cols, rows = [[''version'' \<mapsto> IntV v]]\<rparr>
   \<Longrightarrow> query_version d = Inr v"
  by (simp add: query_version_def colnames_def schema_version_cols_def pkcol_def first_row_def
      pk_col_def scan_int_def getv_def)




lemma not_v1_review_jobs_cols [simp]: "\<not> hasCommitSHA review_jobs_cols"
  by (simp add: review_jobs_cols_def pkcol_def intcol_def textcol_def)

subsection \<open>The recovery statement on a job table of the current layout\<close>

lemma colnames_review_jobs: "cols t = review_jobs_cols \<Longrightarrow> colnames t = job_columns"
  by (simp add: colnames_def review_jobs_cols_def job_columns_def pkcol_def intcol_def textcol_def)

lemma reset_exec:
  assumes "tables d ''review_jobs'' = Some t" and "cols t = review_jobs_cols"
  shows "ResetStaleJobs d =
    (None, d\<lparr>tables := (tables d)(''review_jobs'' \<mapsto>
       t\<lparr>rows := map (update_row
            [(''status'', TextV ''queued''), (''worker_id'', Null), (''started_at'', Null)]
            ''status'' (TextV ''running'')) (rows t)\<rparr>)\<rparr>)"
proof -
  have ok: "list_all (set_ok t) [(''status'', TextV ''queued''), (''worker_id'', Null), (''started_at'', Null)]"
    using assms(2)
    by (simp add: set_ok_def review_jobs_cols_def pkcol_def intcol_def textcol_def check_col_def job_statuses_def)
  have key: "\<not> list_ex (\<lambda>c. (pk c \<or> uniq c) \<and> cname c \<in> set (map fst [(''status'', TextV ''queued''), (''worker_id'', Null), (''started_at'', Null)])) (cols t)"
    using assms(2)
    by (simp add: review_jobs_cols_def pkcol_def intcol_def textcol_def)
  show ?thesis
    using assms(1) ok key
    by (simp add: ResetStaleJobs_def colnames_review_jobs[OF assms(2)] job_columns_def)
qed

subsection \<open>Copying legacy rows into the new table\<close>

lemma colnames_new [simp]: "colnames \<lparr>cols = review_jobs_cols, rows = rs\<rparr> = job_columns"
  by (simp add: colnames_review_jobs)




lemma pk_col_review_jobs [simp]: "pk_col review_jobs_cols = Some ''id''"
  by (simp add: pk_col_def review_jobs_cols_def pkcol_def intcol_def textcol_def)








subsection \<open>A failing script leaves its prefix applied\<close>

lemma Exec_fails:
  "Exec ss d = (Some e, d') \<Longrightarrow>
   \<exists>k<length ss. Exec (take k ss) d = (None, d') \<and> exec_stmt (ss ! k) d' = Inl e"
proof (induction ss arbitrary: d)
  case Nil
  then show ?case by simp
next
  case (Cons s ss)
  show ?case
  proof (cases "exec_stmt s d")
    case (Inl e0)
    with Cons.prems have "e0 = e" "d' = d" by simp_all
    with Inl have "Exec (take 0 (s # ss)) d = (None, d') \<and> exec_stmt ((s # ss) ! 0) d' = Inl e"
      by simp
    then show ?thesis by blast
  next
    case (Inr d1)
    with Cons.prems have "Exec ss d1 = (Some e, d')" by simp
    from Cons.IH[OF this] obtain k where k: "k < length ss"
      "Exec (take k ss) d1 = (None, d')" "exec_stmt (ss ! k) d' = Inl e" by blast
    with Inr have "Suc k < length (s # ss) \<and> Exec (take (Suc k) (s # ss)) d = (None, d') \<and>
        exec_stmt ((s # ss) ! Suc k) d' = Inl e" by simp
    then show ?thesis by blast
  qed
qed

lemma create_table_frame:
  "exec_stmt (CreateTable ine n cs) d = Inr d' \<Longrightarrow>
   indexes d' = indexes d \<and> (\<forall>m. tables d m \<noteq> None \<longrightarrow> tables d' m = tables d m)"
  by (auto split: if_splits)

lemma script_prefix_frame:
  assumes "k \<le> 2" and "Exec (take k v1_to_v2_script) d = (None, d')"
  shows "indexes d' = indexes d \<and> (\<forall>m. tables d m \<noteq> None \<longrightarrow> tables d' m = tables d m)"
proof -
  from assms(1) consider "k = 0" | "k = 1" | "k = 2" by linarith
  then show ?thesis
  proof cases
    case 1
    with assms(2) show ?thesis by simp
  next
    case 2
    with assms(2) have "exec_stmt (CreateTable True ''schema_version'' schema_version_cols) d = Inr d'"
      by (simp add: v1_to_v2_script_def del: exec_stmt.simps split: sum.splits)
    then show ?thesis by (rule create_table_frame)
  next
    case 3
    with assms(2) obtain d1 where
      a: "exec_stmt (CreateTable True ''schema_version'' schema_version_cols) d = Inr d1" and
      b: "exec_stmt (CreateTable False ''review_jobs_new'' review_jobs_cols) d1 = Inr d'"
      by (auto simp add: v1_to_v2_script_def numeral_2_eq_2 simp del: exec_stmt.simps split: sum.splits)
    from create_table_frame[OF a] create_table_frame[OF b] show ?thesis
      by (metis (no_types, lifting))
  qed
qed

lemma Exec_prefix_ok:
  "Exec (take k ss) d = (None, d') \<Longrightarrow> j \<le> k \<Longrightarrow> \<exists>d''. Exec (take j ss) d = (None, d'')"
proof (induction ss arbitrary: d k j)
  case Nil
  then show ?case by simp
next
  case (Cons s ss)
  show ?case
  proof (cases j)
    case 0
    then show ?thesis by simp
  next
    case (Suc j')
    with Cons.prems(2) obtain k' where k: "k = Suc k'" "j' \<le> k'" by (cases k) auto
    from Cons.prems(1) k obtain d1 where s: "exec_stmt s d = Inr d1"
      and r: "Exec (take k' ss) d1 = (None, d')"
      by (auto simp del: exec_stmt.simps split: sum.splits)
    from Cons.IH[OF r k(2)] obtain d'' where "Exec (take j' ss) d1 = (None, d'')" by blast
    with s Suc show ?thesis by (simp del: exec_stmt.simps)
  qed
qed

lemma legacy_bad_copy_fails:
  "fst (Exec (take 3 v1_to_v2_script) legacy_bad) = Some (ConstraintFailed ''status'')"
  by (simp add: legacy_bad_def legacy_db_def v1_review_jobs_cols_def
      pkcol_def intcol_def textcol_def v1_to_v2_script_def colnames_def review_jobs_cols_def
      job_columns_def v1_job_columns_def insert_row_def assign_rowid_def pk_col_def make_row_def
      blank_row_def legacy_row_def getv_def map_add_def violated_def check_col_def job_statuses_def
      numeral_3_eq_3)

lemma legacy_bad_run:
  "migrateV1ToV2 legacy_bad =
     (Some (ConstraintFailed ''status''),
      legacy_bad\<lparr>tables := (tables legacy_bad)
         (''schema_version'' \<mapsto> \<lparr>cols = schema_version_cols, rows = []\<rparr>,
          ''review_jobs_new'' \<mapsto> \<lparr>cols = review_jobs_cols, rows = []\<rparr>)\<rparr>)"
  by (simp add: migrateV1ToV2_def table_info_def legacy_bad_def legacy_db_def v1_review_jobs_cols_def
      pkcol_def intcol_def textcol_def v1_to_v2_script_def colnames_def review_jobs_cols_def
      job_columns_def v1_job_columns_def insert_row_def assign_rowid_def pk_col_def make_row_def
      blank_row_def legacy_row_def getv_def map_add_def violated_def check_col_def job_statuses_def)





lemma legacy_bad_v1: "isV1Database legacy_bad"
  by (simp add: isV1Database_def table_info_def legacy_bad_def legacy_db_def v1_review_jobs_cols_def
      pkcol_def intcol_def textcol_def)

section \<open>Facts about the job queue\<close>

lemma claim_row_id [simp]: "getv (claim_row w n r) ''id'' = getv r ''id''"
  by (simp add: claim_row_def getv_def)

lemma claim_row_job_id [simp]: "job_id (claim_row w n r) = job_id r"
  by (simp add: job_id_def rowid_at_def)

lemma claim_row_not_queued [simp]: "\<not> is_queued (claim_row w n r)"
  by (simp add: is_queued_def claim_row_def getv_def)


lemma ClaimJob_none:
  "tables d ''review_jobs'' = Some t \<Longrightarrow> filter is_queued (rows t) = [] \<Longrightarrow>
   ClaimJob w n d = (Inr None, d)"
  by (simp add: ClaimJob_def)

lemma ClaimJob_some:
  assumes "tables d ''review_jobs'' = Some t" and "filter is_queued (rows t) \<noteq> []"
  shows "ClaimJob w n d =
    (Inr (Some (claim_row w n (arg_min_list job_id (filter is_queued (rows t))))),
     d\<lparr>tables := (tables d)(''review_jobs'' \<mapsto>
        t\<lparr>rows := map (claim_upd w n (arg_min_list job_id (filter is_queued (rows t)))) (rows t)\<rparr>)\<rparr>)"
  using assms by (simp add: ClaimJob_def Let_def split: list.splits)

lemma oldest_props:
  assumes "filter is_queued rs \<noteq> []"
  shows "arg_min_list job_id (filter is_queued rs) \<in> set rs"
    and "is_queued (arg_min_list job_id (filter is_queued rs))"
    and "\<forall>r \<in> set rs. is_queued r \<longrightarrow> job_id (arg_min_list job_id (filter is_queued rs)) \<le> job_id r"
proof -
  let ?j = "arg_min_list job_id (filter is_queued rs)"
  from arg_min_list_in[OF assms, of job_id] show "?j \<in> set rs" "is_queued ?j" by simp_all
  have "job_id ?j = Min (job_id ` set (filter is_queued rs))"
    by (rule f_arg_min_list_f[OF assms])
  then show "\<forall>r \<in> set rs. is_queued r \<longrightarrow> job_id ?j \<le> job_id r"
    by simp
qed


lemma claim_upd_id [simp]: "getv (claim_upd w n j r) ''id'' = getv r ''id''"
  by (simp add: claim_upd_def)


lemma queued_after_claim:
  "filter is_queued (map (claim_upd w n j) rs) =
   filter (\<lambda>r. is_queued r \<and> getv r ''id'' \<noteq> getv j ''id'') rs"
  by (induction rs) (auto simp: claim_upd_def)











lemma queue_table_queued:
  "filter is_queued (rows queue_table) = [job_row 2 1 ''c1'' ''queued'' Null Null, job_row 3 2 ''c2'' ''queued'' Null Null]"
  by (simp add: queue_table_def is_queued_def job_row_def getv_def)

subsection \<open>Enqueueing, and claiming from the front\<close>

lemma next_rowid_fresh: "r \<in> set rs \<Longrightarrow> rowid_at k r < next_rowid k rs"
proof -
  assume r: "r \<in> set rs"
  then have "rowid_at k r \<le> Max (set (map (rowid_at k) rs))" by (intro Max_ge) auto
  with r show ?thesis by (auto simp: next_rowid_def)
qed

lemma next_rowid_unused: "IntV (next_rowid k rs) \<notin> set (map (\<lambda>r. getv r k) rs)"
proof
  assume "IntV (next_rowid k rs) \<in> set (map (\<lambda>r. getv r k) rs)"
  then obtain r where r: "r \<in> set rs" "getv r k = IntV (next_rowid k rs)" by auto
  then have "rowid_at k r = next_rowid k rs" by (simp add: rowid_at_def)
  with next_rowid_fresh[OF r(1), of k] show False by simp
qed

lemma new_job_fields:
  assumes "cols t = review_jobs_cols"
  shows "getv (new_job t rp cm g a n) ''id'' = IntV (next_rowid ''id'' (rows t))"
    and "getv (new_job t rp cm g a n) ''repo_id'' = IntV rp"
    and "getv (new_job t rp cm g a n) ''git_ref'' = TextV g"
    and "getv (new_job t rp cm g a n) ''agent'' = TextV a"
    and "getv (new_job t rp cm g a n) ''status'' = TextV ''queued''"
    and "getv (new_job t rp cm g a n) ''enqueued_at'' = TextV n"
  by (simp_all add: new_job_def make_row_def getv_def map_add_def)

lemma new_job_ok: "cols t = review_jobs_cols \<Longrightarrow> job_row_ok (new_job t rp cm g a n)"
  by (simp add: job_row_ok_def new_job_fields is_int_def job_statuses_def)

lemma new_job_id: "cols t = review_jobs_cols \<Longrightarrow> job_id (new_job t rp cm g a n) = next_rowid ''id'' (rows t)"
  by (simp add: job_id_def rowid_at_def new_job_fields)

lemma EnqueueJob_layout:
  assumes "tables d ''review_jobs'' = Some t" and "cols t = review_jobs_cols"
  shows "EnqueueJob rp cm g a n d =
     (Inr (new_job t rp cm g a n),
      d\<lparr>tables := (tables d)(''review_jobs'' \<mapsto> t\<lparr>rows := rows t @ [new_job t rp cm g a n]\<rparr>)\<rparr>)"
proof -
  let ?r = "make_row t [''repo_id'', ''commit_id'', ''git_ref'', ''agent'', ''status'', ''enqueued_at'']
        [IntV rp, IntV cm, TextV g, TextV a, TextV ''queued'', TextV n]"
  let ?n = "new_job t rp cm g a n"
  have blank: "getv ?r ''id'' = Null"
    using assms(2)
    by (simp add: make_row_def blank_row_def colnames_review_jobs job_columns_def getv_def map_add_def)
  have a: "assign_rowid t ?r = Inr ?n"
    using assms(2) blank by (simp add: assign_rowid_def new_job_def)
  have v: "violated t ?n = None"
    using assms(2) new_job_ok[OF assms(2), of rp cm g a n] next_rowid_unused[of "''id''" "rows t"]
    by (auto simp add: violated_def job_row_ok_def review_jobs_cols_def pkcol_def intcol_def textcol_def
        check_col_def unique_col_def new_job_fields[OF assms(2)])
  have i: "insert_row t ?r = Inr (t\<lparr>rows := rows t @ [?n]\<rparr>)"
    by (simp add: insert_row_def a v)
  have "exec_stmt (InsertValues ''review_jobs''
               [''repo_id'', ''commit_id'', ''git_ref'', ''agent'', ''status'', ''enqueued_at'']
               [IntV rp, IntV cm, TextV g, TextV a, TextV ''queued'', TextV n]) d =
        Inr (d\<lparr>tables := (tables d)(''review_jobs'' \<mapsto> t\<lparr>rows := rows t @ [?n]\<rparr>)\<rparr>)"
    using assms(1) by (simp add: colnames_review_jobs[OF assms(2)] job_columns_def i)
  then show ?thesis by (simp add: EnqueueJob_def del: exec_stmt.simps)
qed

lemma arg_min_list_first:
  "\<forall>x \<in> set xs. f q < f x \<Longrightarrow> arg_min_list f (q # xs) = (q :: 'a)"
  for f :: "'a \<Rightarrow> int"
proof (cases xs)
  case Nil
  then show ?thesis by simp
next
  case (Cons y ys)
  assume a: "\<forall>x \<in> set xs. f q < f x"
  have "arg_min_list f (y # ys) \<in> set (y # ys)" by (rule arg_min_list_in) simp
  with a Cons have "f q < f (arg_min_list f (y # ys))" by blast
  then show ?thesis using Cons by (simp add: Let_def)
qed

lemma ClaimJob_front:
  assumes t: "tables d ''review_jobs'' = Some t"
    and rs: "rows t = pre @ q # post"
    and pre: "\<forall>r \<in> set pre. \<not> is_queued r"
    and q: "is_queued q"
    and post: "\<forall>r \<in> set post. is_queued r \<longrightarrow> job_id q < job_id r"
  shows "ClaimJob w n d =
     (Inr (Some (claim_row w n q)),
      d\<lparr>tables := (tables d)(''review_jobs'' \<mapsto> t\<lparr>rows := pre @ claim_row w n q # post\<rparr>)\<rparr>)"
proof -
  have f: "filter is_queued (rows t) = q # filter is_queued post"
    using pre q by (simp add: rs filter_empty_conv)
  have m: "arg_min_list job_id (filter is_queued (rows t)) = q"
    unfolding f using post by (intro arg_min_list_first) simp
  have u1: "map (claim_upd w n q) pre = pre"
    using pre by (intro map_idI) (simp add: claim_upd_def)
  have u2: "map (claim_upd w n q) post = post"
  proof (intro map_idI)
    fix r assume r: "r \<in> set post"
    show "claim_upd w n q r = r"
    proof (cases "is_queued r")
      case True
      with post r have "job_id q < job_id r" by blast
      then have "getv r ''id'' \<noteq> getv q ''id''" by (auto simp: job_id_def rowid_at_def)
      then show ?thesis by (simp add: claim_upd_def)
    next
      case False
      then show ?thesis by (simp add: claim_upd_def)
    qed
  qed
  have u3: "claim_upd w n q q = claim_row w n q" using q by (simp add: claim_upd_def)
  have "filter is_queued (rows t) \<noteq> []" by (simp add: f)
  from ClaimJob_some[OF t this, of w n] show ?thesis
    by (simp add: m) (simp add: rs u1 u2 u3)
qed

lemma claim_row_git_ref [simp]: "getv (claim_row w n r) ''git_ref'' = getv r ''git_ref''"
  by (simp add: claim_row_def getv_def)

lemma ClaimJob_oldest:
  assumes "tables d ''review_jobs'' = Some t" and "\<exists>r \<in> set (rows t). is_queued r"
  shows "\<exists>j d'. ClaimJob w now d = (Inr (Some (claim_row w now j)), d') \<and>
           j \<in> set (rows t) \<and> is_queued j \<and>
           job_id j = Min (job_id ` {r \<in> set (rows t). is_queued r}) \<and>
           job_id (claim_row w now j) = job_id j \<and>
           (\<forall>r \<in> set (rows t). is_queued r \<longrightarrow> job_id j \<le> job_id r)"
proof -
  from assms(2) have ne: "filter is_queued (rows t) \<noteq> []" by (simp add: filter_empty_conv)
  let ?j = "arg_min_list job_id (filter is_queued (rows t))"
  have "job_id ?j = Min (job_id ` set (filter is_queued (rows t)))"
    by (rule f_arg_min_list_f[OF ne])
  then have mn: "job_id ?j = Min (job_id ` {r \<in> set (rows t). is_queued r})" by simp
  from ClaimJob_some[OF assms(1) ne, of w now] oldest_props[OF ne] mn
  show ?thesis by (intro exI[of _ ?j] exI conjI) simp_all
qed

lemma three_enqueued_claimed:
  assumes t: "tables d ''review_jobs'' = Some t" and c: "cols t = review_jobs_cols"
    and nq: "\<forall>r \<in> set (rows t). \<not> is_queued r"
  shows "\<exists>j0 d1 j1 d2 j2 d3 k0 e1 k1 e2 k2 e3.
           EnqueueJob rp0 cm0 c0 a0 n0 d = (Inr j0, d1) \<and>
           EnqueueJob rp1 cm1 c1 a1 n1 d1 = (Inr j1, d2) \<and>
           EnqueueJob rp2 cm2 c2 a2 n2 d2 = (Inr j2, d3) \<and>
           ClaimJob w0 s0 d3 = (Inr (Some k0), e1) \<and>
           ClaimJob w1 s1 e1 = (Inr (Some k1), e2) \<and>
           ClaimJob w2 s2 e2 = (Inr (Some k2), e3) \<and>
           ClaimJob w3 s3 e3 = (Inr None, e3) \<and>
           job_id k0 = job_id j0 \<and> job_id k1 = job_id j1 \<and> job_id k2 = job_id j2 \<and>
           getv k0 ''git_ref'' = TextV c0 \<and> getv k1 ''git_ref'' = TextV c1 \<and>
           getv k2 ''git_ref'' = TextV c2 \<and>
           job_id j0 < job_id j1 \<and> job_id j1 < job_id j2"
proof -
  define j0 where "j0 = new_job t rp0 cm0 c0 a0 n0"
  define t1 where "t1 = t\<lparr>rows := rows t @ [j0]\<rparr>"
  define d1 where "d1 = d\<lparr>tables := (tables d)(''review_jobs'' \<mapsto> t1)\<rparr>"
  define j1 where "j1 = new_job t1 rp1 cm1 c1 a1 n1"
  define t2 where "t2 = t1\<lparr>rows := rows t1 @ [j1]\<rparr>"
  define d2 where "d2 = d1\<lparr>tables := (tables d1)(''review_jobs'' \<mapsto> t2)\<rparr>"
  define j2 where "j2 = new_job t2 rp2 cm2 c2 a2 n2"
  define t3 where "t3 = t2\<lparr>rows := rows t2 @ [j2]\<rparr>"
  define d3 where "d3 = d2\<lparr>tables := (tables d2)(''review_jobs'' \<mapsto> t3)\<rparr>"
  define k0 where "k0 = claim_row w0 s0 j0"
  define k1 where "k1 = claim_row w1 s1 j1"
  define k2 where "k2 = claim_row w2 s2 j2"
  define u1 where "u1 = t3\<lparr>rows := rows t @ k0 # [j1, j2]\<rparr>"
  define e1 where "e1 = d3\<lparr>tables := (tables d3)(''review_jobs'' \<mapsto> u1)\<rparr>"
  define u2 where "u2 = u1\<lparr>rows := (rows t @ [k0]) @ k1 # [j2]\<rparr>"
  define e2 where "e2 = e1\<lparr>tables := (tables e1)(''review_jobs'' \<mapsto> u2)\<rparr>"
  define u3 where "u3 = u2\<lparr>rows := (rows t @ [k0, k1]) @ k2 # []\<rparr>"
  define e3 where "e3 = e2\<lparr>tables := (tables e2)(''review_jobs'' \<mapsto> u3)\<rparr>"
  have c1: "cols t1 = review_jobs_cols" and c2: "cols t2 = review_jobs_cols"
    using c by (simp_all add: t1_def t2_def)
  have tb1: "tables d1 ''review_jobs'' = Some t1" and tb2: "tables d2 ''review_jobs'' = Some t2"
    and tb3: "tables d3 ''review_jobs'' = Some t3"
    and tu1: "tables e1 ''review_jobs'' = Some u1" and tu2: "tables e2 ''review_jobs'' = Some u2"
    and tu3: "tables e3 ''review_jobs'' = Some u3"
    by (simp_all add: d1_def d2_def d3_def e1_def e2_def e3_def)
  have q0: "EnqueueJob rp0 cm0 c0 a0 n0 d = (Inr j0, d1)"
    unfolding j0_def d1_def t1_def j0_def by (rule EnqueueJob_layout[OF t c])
  have q1: "EnqueueJob rp1 cm1 c1 a1 n1 d1 = (Inr j1, d2)"
    unfolding j1_def d2_def t2_def by (rule EnqueueJob_layout[OF tb1 c1])
  have q2: "EnqueueJob rp2 cm2 c2 a2 n2 d2 = (Inr j2, d3)"
    unfolding j2_def d3_def t3_def by (rule EnqueueJob_layout[OF tb2 c2])
  have i0: "job_id j0 = next_rowid ''id'' (rows t)" unfolding j0_def by (rule new_job_id[OF c])
  have i1: "job_id j1 = next_rowid ''id'' (rows t1)" unfolding j1_def by (rule new_job_id[OF c1])
  have i2: "job_id j2 = next_rowid ''id'' (rows t2)" unfolding j2_def by (rule new_job_id[OF c2])
  have "rowid_at ''id'' j0 < next_rowid ''id'' (rows t1)"
    by (rule next_rowid_fresh) (simp add: t1_def)
  then have l01: "job_id j0 < job_id j1" using i1 by (simp add: job_id_def)
  have "rowid_at ''id'' j1 < next_rowid ''id'' (rows t2)"
    by (rule next_rowid_fresh) (simp add: t2_def)
  then have l12: "job_id j1 < job_id j2" using i2 by (simp add: job_id_def)
  have g0: "is_queued j0" "getv j0 ''git_ref'' = TextV c0"
    by (simp_all add: j0_def is_queued_def new_job_fields[OF c])
  have g1: "is_queued j1" "getv j1 ''git_ref'' = TextV c1"
    by (simp_all add: j1_def is_queued_def new_job_fields[OF c1])
  have g2: "is_queued j2" "getv j2 ''git_ref'' = TextV c2"
    by (simp_all add: j2_def is_queued_def new_job_fields[OF c2])
  have r3: "rows t3 = rows t @ j0 # [j1, j2]" by (simp add: t3_def t2_def t1_def)
  have p1: "ClaimJob w0 s0 d3 = (Inr (Some k0), e1)"
    unfolding k0_def e1_def u1_def
    by (rule ClaimJob_front[OF tb3 r3 nq g0(1)]) (use l01 l12 in auto)
  have r4: "rows u1 = (rows t @ [k0]) @ j1 # [j2]" by (simp add: u1_def)
  have p2: "ClaimJob w1 s1 e1 = (Inr (Some k1), e2)"
    unfolding k1_def e2_def u2_def
    by (rule ClaimJob_front[OF tu1 r4 _ g1(1)]) (use nq l12 in \<open>auto simp: k0_def\<close>)
  have r5: "rows u2 = (rows t @ [k0, k1]) @ j2 # []" by (simp add: u2_def)
  have p3: "ClaimJob w2 s2 e2 = (Inr (Some k2), e3)"
    unfolding k2_def e3_def u3_def
    by (rule ClaimJob_front[OF tu2 r5 _ g2(1)]) (use nq in \<open>auto simp: k0_def k1_def\<close>)
  have "filter is_queued (rows u3) = []"
    using nq by (simp add: u3_def k0_def k1_def k2_def filter_empty_conv)
  with tu3 have p4: "ClaimJob w3 s3 e3 = (Inr None, e3)" by (rule ClaimJob_none)
  have ids: "job_id k0 = job_id j0" "job_id k1 = job_id j1" "job_id k2 = job_id j2"
    by (simp_all add: k0_def k1_def k2_def)
  have refs: "getv k0 ''git_ref'' = TextV c0" "getv k1 ''git_ref'' = TextV c1"
    "getv k2 ''git_ref'' = TextV c2"
    using g0 g1 g2 by (simp_all add: k0_def k1_def k2_def)
  show ?thesis
    apply (rule exI[of _ j0], rule exI[of _ d1], rule exI[of _ j1], rule exI[of _ d2])
    apply (rule exI[of _ j2], rule exI[of _ d3], rule exI[of _ k0], rule exI[of _ e1])
    apply (rule exI[of _ k1], rule exI[of _ e2], rule exI[of _ k2], rule exI[of _ e3])
    by (intro conjI q0 q1 q2 p1 p2 p3 p4 ids refs l01 l12)
qed

section \<open>Facts about the registries\<close>




lemma pk_col_repos [simp]: "pk_col repos_cols = Some ''id''"
  by (simp add: pk_col_def repos_cols_def pkcol_def intcol_def textcol_def)

lemma pk_col_commits [simp]: "pk_col commits_cols = Some ''id''"
  by (simp add: pk_col_def commits_cols_def pkcol_def intcol_def textcol_def)





















section \<open>The version table holds one row after every write\<close>

text \<open>
  Claim C5. Whatever the version table held before (no row, one row or several), when
  \<open>setSchemaVersion v\<close> returns without error the table holds exactly one row, and that
  row's version is \<open>v\<close>: the function deletes every row and then inserts one, it never
  updates a row in place.
\<close>

theorem setSchemaVersion_single_row:
  assumes "setSchemaVersion v d = (None, d')"
  shows "\<exists>t' r. tables d' ''schema_version'' = Some t' \<and> rows t' = [r] \<and>
           getv r ''version'' = IntV v"
proof -
  from assms obtain t where t: "tables d ''schema_version'' = Some t"
    by (auto simp: setSchemaVersion_def split: option.splits)
  let ?t0 = "t\<lparr>rows := []\<rparr>"
  let ?d1 = "d\<lparr>tables := (tables d)(''schema_version'' \<mapsto> ?t0)\<rparr>"
  from assms t
  have ins: "Exec [InsertValues ''schema_version'' [''version''] [IntV v]] ?d1 = (None, d')"
    by (simp add: setSchemaVersion_def)
  then obtain t' where t': "insert_row ?t0 (make_row ?t0 [''version''] [IntV v]) = Inr t'"
    and d': "d' = ?d1\<lparr>tables := (tables ?d1)(''schema_version'' \<mapsto> t')\<rparr>"
    by (auto split: option.splits if_splits sum.splits)
  from insert_row_rows[OF t'] obtain r' where
    r': "assign_rowid ?t0 (make_row ?t0 [''version''] [IntV v]) = Inr r'"
    and tr: "t' = ?t0\<lparr>rows := rows ?t0 @ [r']\<rparr>"
    by blast
  have "getv r' ''version'' = IntV v"
    using assign_rowid_keeps[OF r', of "''version''"] by (simp add: getv_make_row_single)
  with tr d' show ?thesis by simp
qed

theorem setSchemaVersion_single_row_witness:
  "\<exists>d'. setSchemaVersion 2 db_two_versions = (None, d') \<and>
     (\<exists>t' r. tables d' ''schema_version'' = Some t' \<and> rows t' = [r] \<and>
        getv r ''version'' = IntV 2)"
proof -
  have "tables db_two_versions ''schema_version'' =
      Some \<lparr>cols = schema_version_cols,
            rows = [[''version'' \<mapsto> IntV 1], [''version'' \<mapsto> IntV 3]]\<rparr>"
    by (simp add: db_two_versions_def)
  from setSchemaVersion_declared[OF this, of 2]
  obtain d' where d': "setSchemaVersion 2 db_two_versions = (None, d')" by simp
  from setSchemaVersion_single_row[OF d'] d' show ?thesis by blast
qed

section \<open>Recovery resets the running jobs and nothing else\<close>

text \<open>
  Claim C6. On a store whose job table has the current layout, \<open>ResetStaleJobs\<close> returns
  no error and changes only the rows of \<^verbatim>\<open>review_jobs\<close>: every row whose status is
  \<^verbatim>\<open>running\<close> gets status \<^verbatim>\<open>queued\<close> and NULL in \<^verbatim>\<open>worker_id\<close> and
  \<^verbatim>\<open>started_at\<close> and keeps every other field; every other row (queued, done, failed)
  is untouched; all other tables and the indexes are as before.
\<close>

theorem ResetStaleJobs_effect:
  assumes "tables d ''review_jobs'' = Some t" and "cols t = review_jobs_cols"
  shows "\<exists>t'. ResetStaleJobs d = (None, d\<lparr>tables := (tables d)(''review_jobs'' \<mapsto> t')\<rparr>) \<and>
           cols t' = cols t \<and> length (rows t') = length (rows t) \<and>
           (\<forall>i < length (rows t).
              (getv (rows t ! i) ''status'' = TextV ''running'' \<longrightarrow>
                 getv (rows t' ! i) ''status'' = TextV ''queued'' \<and>
                 getv (rows t' ! i) ''worker_id'' = Null \<and>
                 getv (rows t' ! i) ''started_at'' = Null \<and>
                 (\<forall>c. c \<notin> {''status'', ''worker_id'', ''started_at''} \<longrightarrow>
                    (rows t' ! i) c = (rows t ! i) c)) \<and>
              (getv (rows t ! i) ''status'' \<noteq> TextV ''running'' \<longrightarrow> rows t' ! i = rows t ! i))"
proof -
  let ?u = "update_row [(''status'', TextV ''queued''), (''worker_id'', Null), (''started_at'', Null)]
            ''status'' (TextV ''running'')"
  let ?t' = "t\<lparr>rows := map ?u (rows t)\<rparr>"
  have run: "getv r ''status'' = TextV ''running'' \<Longrightarrow>
      getv (?u r) ''status'' = TextV ''queued'' \<and> getv (?u r) ''worker_id'' = Null \<and>
      getv (?u r) ''started_at'' = Null \<and>
      (\<forall>c. c \<notin> {''status'', ''worker_id'', ''started_at''} \<longrightarrow> (?u r) c = r c)" for r
    by (simp add: update_row_def getv_def map_add_def)
  have other: "getv r ''status'' \<noteq> TextV ''running'' \<Longrightarrow> ?u r = r" for r
    by (simp add: update_row_def)
  have "ResetStaleJobs d = (None, d\<lparr>tables := (tables d)(''review_jobs'' \<mapsto> ?t')\<rparr>)"
    by (rule reset_exec[OF assms])
  moreover have "cols ?t' = cols t" "length (rows ?t') = length (rows t)" by simp_all
  moreover have "\<forall>i < length (rows t).
              (getv (rows t ! i) ''status'' = TextV ''running'' \<longrightarrow>
                 getv (rows ?t' ! i) ''status'' = TextV ''queued'' \<and>
                 getv (rows ?t' ! i) ''worker_id'' = Null \<and>
                 getv (rows ?t' ! i) ''started_at'' = Null \<and>
                 (\<forall>c. c \<notin> {''status'', ''worker_id'', ''started_at''} \<longrightarrow>
                    (rows ?t' ! i) c = (rows t ! i) c)) \<and>
              (getv (rows t ! i) ''status'' \<noteq> TextV ''running'' \<longrightarrow> rows ?t' ! i = rows t ! i)"
    using run other by simp
  ultimately show ?thesis by blast
qed

theorem ResetStaleJobs_effect_witness:
  "tables db_jobs ''review_jobs'' = Some jobs_table \<and> cols jobs_table = review_jobs_cols \<and>
   getv (rows jobs_table ! 0) ''status'' = TextV ''running'' \<and>
   getv (rows jobs_table ! 1) ''status'' \<noteq> TextV ''running'' \<and>
   (\<exists>t'. ResetStaleJobs db_jobs = (None, db_jobs\<lparr>tables := (tables db_jobs)(''review_jobs'' \<mapsto> t')\<rparr>) \<and>
      length (rows t') = 4 \<and>
      getv (rows t' ! 0) ''status'' = TextV ''queued'' \<and>
      getv (rows t' ! 0) ''worker_id'' = Null \<and>
      getv (rows t' ! 0) ''started_at'' = Null \<and>
      (rows t' ! 0) ''git_ref'' = (rows jobs_table ! 0) ''git_ref'' \<and>
      rows t' ! 1 = rows jobs_table ! 1)"
proof -
  have h1: "tables db_jobs ''review_jobs'' = Some jobs_table" by (simp add: db_jobs_def)
  have h2: "cols jobs_table = review_jobs_cols" by (simp add: jobs_table_def)
  have l: "length (rows jobs_table) = 4" by (simp add: jobs_table_def)
  have s0: "getv (rows jobs_table ! 0) ''status'' = TextV ''running''"
    by (simp add: jobs_table_def job_row_def getv_def)
  have s1: "getv (rows jobs_table ! 1) ''status'' \<noteq> TextV ''running''"
    by (simp add: jobs_table_def job_row_def getv_def)
  from ResetStaleJobs_effect[OF h1 h2] obtain t' where
    r: "ResetStaleJobs db_jobs = (None, db_jobs\<lparr>tables := (tables db_jobs)(''review_jobs'' \<mapsto> t')\<rparr>)"
    and len: "length (rows t') = length (rows jobs_table)"
    and all: "\<forall>i < length (rows jobs_table).
              (getv (rows jobs_table ! i) ''status'' = TextV ''running'' \<longrightarrow>
                 getv (rows t' ! i) ''status'' = TextV ''queued'' \<and>
                 getv (rows t' ! i) ''worker_id'' = Null \<and>
                 getv (rows t' ! i) ''started_at'' = Null \<and>
                 (\<forall>c. c \<notin> {''status'', ''worker_id'', ''started_at''} \<longrightarrow>
                    (rows t' ! i) c = (rows jobs_table ! i) c)) \<and>
              (getv (rows jobs_table ! i) ''status'' \<noteq> TextV ''running'' \<longrightarrow> rows t' ! i = rows jobs_table ! i)"
    by blast
  from all[rule_format, of 0] l s0 have a0: "getv (rows t' ! 0) ''status'' = TextV ''queued''"
    "getv (rows t' ! 0) ''worker_id'' = Null" "getv (rows t' ! 0) ''started_at'' = Null"
    "(rows t' ! 0) ''git_ref'' = (rows jobs_table ! 0) ''git_ref''" by simp_all
  from all[rule_format, of 1] l s1 have a1: "rows t' ! 1 = rows jobs_table ! 1" by simp
  show ?thesis using h1 h2 s0 s1 r len l a0 a1 by auto
qed

section \<open>A version between 0 and the current one\<close>

text \<open>
  Claim C9. In a database that is not a legacy one and whose stored version \<open>v\<close> lies
  strictly between 0 and the current version, \<open>migrate\<close> does nothing but write the
  version: it returns no error, the version table holds the single row 2 afterwards,
  and every other table and every index is unchanged. No migration step runs.
\<close>

theorem migrate_intermediate_version:
  assumes "\<not> isV1Database d" and "getSchemaVersion d = v" and "0 < v" and "v < currentSchemaVersion"
    and "tables d ''schema_version'' = Some t" and "cols t = schema_version_cols"
  shows "migrate d = setSchemaVersion currentSchemaVersion d \<and>
         migrate d = (None, d\<lparr>tables := (tables d)(''schema_version'' \<mapsto>
            \<lparr>cols = schema_version_cols, rows = [[''version'' \<mapsto> IntV currentSchemaVersion]]\<rparr>)\<rparr>) \<and>
         getSchemaVersion (snd (migrate d)) = currentSchemaVersion"
proof -
  have m: "migrate d = setSchemaVersion currentSchemaVersion d"
    using assms(1-4) by (simp add: migrate_def)
  have s: "setSchemaVersion currentSchemaVersion d = (None, d\<lparr>tables := (tables d)(''schema_version'' \<mapsto>
            \<lparr>cols = schema_version_cols, rows = [[''version'' \<mapsto> IntV currentSchemaVersion]]\<rparr>)\<rparr>)"
    by (rule setSchemaVersion_declared[OF assms(5,6)])
  have "getSchemaVersion (snd (migrate d)) = currentSchemaVersion"
    by (simp add: m s getSchemaVersion_def query_version_declared)
  with m s show ?thesis by simp
qed

theorem migrate_intermediate_version_witness:
  "\<not> isV1Database db_version_one \<and> getSchemaVersion db_version_one = 1 \<and> (0::int) < 1 \<and>
   1 < currentSchemaVersion \<and>
   tables db_version_one ''schema_version'' =
     Some \<lparr>cols = schema_version_cols, rows = [[''version'' \<mapsto> IntV 1]]\<rparr> \<and>
   migrate db_version_one = (None, db_jobs)"
proof -
  have h1: "\<not> isV1Database db_version_one"
    by (simp add: isV1Database_def table_info_def db_version_one_def jobs_table_def)
  have h5: "tables db_version_one ''schema_version'' =
     Some \<lparr>cols = schema_version_cols, rows = [[''version'' \<mapsto> IntV 1]]\<rparr>"
    by (simp add: db_version_one_def)
  have h2: "getSchemaVersion db_version_one = 1"
    by (simp add: getSchemaVersion_def query_version_declared[OF h5])
  have h4: "1 < currentSchemaVersion" by (simp add: currentSchemaVersion_def)
  have e: "db_version_one\<lparr>tables := (tables db_version_one)(''schema_version'' \<mapsto>
            \<lparr>cols = schema_version_cols, rows = [[''version'' \<mapsto> IntV currentSchemaVersion]]\<rparr>)\<rparr> = db_jobs"
    by (simp add: db_version_one_def db_jobs_def currentSchemaVersion_def)
  have "migrate db_version_one = (None, db_version_one\<lparr>tables := (tables db_version_one)(''schema_version'' \<mapsto>
            \<lparr>cols = schema_version_cols, rows = [[''version'' \<mapsto> IntV currentSchemaVersion]]\<rparr>)\<rparr>)"
  proof -
    have h3: "(0::int) < 1" by simp
    have h6: "cols \<lparr>cols = schema_version_cols, rows = [[''version'' \<mapsto> IntV 1]]\<rparr> = schema_version_cols"
      by simp
    from migrate_intermediate_version[OF h1 h2 h3 h4 h5 h6] show ?thesis by blast
  qed
  then have "migrate db_version_one = (None, db_jobs)" by (simp only: e)
  with h1 h2 h4 h5 show ?thesis by simp
qed

section \<open>An unreadable version is version 0\<close>



section \<open>Migrating a legacy store\<close>



section \<open>The legacy migration is not one transaction\<close>

text \<open>
  Claim C4 says that the legacy migration runs inside one transaction, so that a failing
  step leaves the store exactly as it was. The code passes the statements to one
  \<^verbatim>\<open>db.Exec\<close> call with no \<^verbatim>\<open>BEGIN\<close> and no transaction object, so each statement is
  committed on its own. On \<open>legacy_bad\<close> the copy fails on the status check of the new
  table: \<open>migrateV1ToV2\<close> returns the error, and the store has gained an empty
  \<^verbatim>\<open>review_jobs_new\<close> (and \<^verbatim>\<open>schema_version\<close>) beside the untouched old job table.
\<close>

theorem migrateV1ToV2_atomic_counterexample:
  "isV1Database legacy_bad \<and>
   fst (migrateV1ToV2 legacy_bad) = Some (ConstraintFailed ''status'') \<and>
   snd (migrateV1ToV2 legacy_bad) \<noteq> legacy_bad \<and>
   tables legacy_bad ''review_jobs_new'' = None \<and>
   tables (snd (migrateV1ToV2 legacy_bad)) ''review_jobs_new'' =
     Some \<lparr>cols = review_jobs_cols, rows = []\<rparr> \<and>
   tables (snd (migrateV1ToV2 legacy_bad)) ''review_jobs'' = tables legacy_bad ''review_jobs''"
proof -
  have a: "tables legacy_bad ''review_jobs_new'' = None"
    by (simp add: legacy_bad_def legacy_db_def)
  have b: "tables (snd (migrateV1ToV2 legacy_bad)) ''review_jobs_new'' =
     Some \<lparr>cols = review_jobs_cols, rows = []\<rparr>"
    by (simp add: legacy_bad_run)
  from a b have "snd (migrateV1ToV2 legacy_bad) \<noteq> legacy_bad" by auto
  with a b legacy_bad_v1 show ?thesis by (simp add: legacy_bad_run)
qed

text \<open>
  Claim C4, amended. The statements of the legacy migration run in order, each applied
  on its own. When one of them fails, \<open>migrateV1ToV2\<close> returns its error and leaves the
  store as the statements before it made it; no later statement runs, and \<open>migrate\<close>
  returns the wrapped error from that same store, without recording a version. When the
  failing statement is one of the first three (creating the two tables, copying the
  rows), every table that existed before is unchanged and so are the indexes.
\<close>

theorem migrateV1ToV2_no_rollback:
  assumes "isV1Database d" and "migrateV1ToV2 d = (Some e, d')"
  shows "migrate d = (Some (Wrapped ''migrate v1 to v2'' e), d') \<and>
         (\<exists>k < length v1_to_v2_script.
            Exec (take k v1_to_v2_script) d = (None, d') \<and>
            exec_stmt (v1_to_v2_script ! k) d' = Inl e \<and>
            (k \<le> 2 \<longrightarrow> indexes d' = indexes d \<and>
                       (\<forall>n. tables d n \<noteq> None \<longrightarrow> tables d' n = tables d n)))"
proof -
  have m: "migrate d = (Some (Wrapped ''migrate v1 to v2'' e), d')"
    using assms by (simp add: migrate_def)
  from assms have "Exec v1_to_v2_script d = (Some e, d')"
    by (simp add: migrateV1ToV2_def isV1Database_def split: sum.splits)
  from Exec_fails[OF this] obtain k where k: "k < length v1_to_v2_script"
    "Exec (take k v1_to_v2_script) d = (None, d')" "exec_stmt (v1_to_v2_script ! k) d' = Inl e"
    by blast
  from script_prefix_frame[OF _ k(2)]
  have "k \<le> 2 \<longrightarrow> indexes d' = indexes d \<and> (\<forall>n. tables d n \<noteq> None \<longrightarrow> tables d' n = tables d n)"
    by blast
  with m k show ?thesis by blast
qed

theorem migrateV1ToV2_no_rollback_witness:
  "isV1Database legacy_bad \<and>
   migrateV1ToV2 legacy_bad =
     (Some (ConstraintFailed ''status''),
      legacy_bad\<lparr>tables := (tables legacy_bad)
         (''schema_version'' \<mapsto> \<lparr>cols = schema_version_cols, rows = []\<rparr>,
          ''review_jobs_new'' \<mapsto> \<lparr>cols = review_jobs_cols, rows = []\<rparr>)\<rparr>) \<and>
   migrate legacy_bad =
     (Some (Wrapped ''migrate v1 to v2'' (ConstraintFailed ''status'')),
      legacy_bad\<lparr>tables := (tables legacy_bad)
         (''schema_version'' \<mapsto> \<lparr>cols = schema_version_cols, rows = []\<rparr>,
          ''review_jobs_new'' \<mapsto> \<lparr>cols = review_jobs_cols, rows = []\<rparr>)\<rparr>) \<and>
   tables (snd (migrate legacy_bad)) ''review_jobs'' = tables legacy_bad ''review_jobs'' \<and>
   tables (snd (migrate legacy_bad)) ''reviews'' = tables legacy_bad ''reviews'' \<and>
   indexes (snd (migrate legacy_bad)) = indexes legacy_bad"
proof -
  let ?d' = "legacy_bad\<lparr>tables := (tables legacy_bad)
         (''schema_version'' \<mapsto> \<lparr>cols = schema_version_cols, rows = []\<rparr>,
          ''review_jobs_new'' \<mapsto> \<lparr>cols = review_jobs_cols, rows = []\<rparr>)\<rparr>"
  note th = migrateV1ToV2_no_rollback[OF legacy_bad_v1 legacy_bad_run]
  from th have m: "migrate legacy_bad =
     (Some (Wrapped ''migrate v1 to v2'' (ConstraintFailed ''status'')), ?d')" by (rule conjunct1)
  from th obtain k where k: "Exec (take k v1_to_v2_script) legacy_bad = (None, ?d')"
    and fr: "k \<le> 2 \<longrightarrow> indexes ?d' = indexes legacy_bad \<and>
          (\<forall>n. tables legacy_bad n \<noteq> None \<longrightarrow> tables ?d' n = tables legacy_bad n)"
    by blast
  have "k \<le> 2"
  proof (rule ccontr)
    assume "\<not> k \<le> 2"
    then have "3 \<le> k" by simp
    from Exec_prefix_ok[OF k this] legacy_bad_copy_fails show False by auto
  qed
  with fr have ix: "indexes ?d' = indexes legacy_bad"
    and tb: "\<forall>n. tables legacy_bad n \<noteq> None \<longrightarrow> tables ?d' n = tables legacy_bad n"
    by blast+
  have "tables legacy_bad ''review_jobs'' \<noteq> None" "tables legacy_bad ''reviews'' \<noteq> None"
    by (simp_all add: legacy_bad_def legacy_db_def)
  with tb have t1: "tables ?d' ''review_jobs'' = tables legacy_bad ''review_jobs''"
    and t2: "tables ?d' ''reviews'' = tables legacy_bad ''reviews''" by blast+
  have s: "snd (migrate legacy_bad) = ?d'" by (simp only: m snd_conv)
  from legacy_bad_v1 legacy_bad_run m t1 t2 ix show ?thesis
    unfolding s by (intro conjI)
qed

section \<open>Claiming with nothing queued\<close>

text \<open>
  Claim C7. On a store with no queued job, \<open>ClaimJob\<close> returns the explicit absence
  \<open>Inr None\<close>, which is not an error, and the store it leaves is the store it found.
\<close>

theorem claim_no_job:
  assumes "tables d ''review_jobs'' = Some t" and "\<forall>r \<in> set (rows t). \<not> is_queued r"
  shows "ClaimJob w now d = (Inr None, d)"
proof -
  from assms(2) have "filter is_queued (rows t) = []" by (simp add: filter_empty_conv)
  with assms(1) show ?thesis by (rule ClaimJob_none)
qed

theorem claim_no_job_witness:
  "tables db_idle ''review_jobs'' = Some idle_table \<and>
   filter is_queued (rows idle_table) = [] \<and>
   ClaimJob ''worker-2'' ''2024-01-01 00:00:10'' db_idle = (Inr None, db_idle)"
proof -
  have h1: "tables db_idle ''review_jobs'' = Some idle_table" by (simp add: db_idle_def)
  have h2: "\<forall>r \<in> set (rows idle_table). \<not> is_queued r"
    by (simp add: idle_table_def is_queued_def job_row_def getv_def)
  then have h3: "filter is_queued (rows idle_table) = []" by (simp add: filter_empty_conv)
  from claim_no_job[OF h1 h2] h1 h3 show ?thesis by (intro conjI)
qed

section \<open>The oldest queued job is claimed first\<close>

text \<open>
  Claim C2. On a store with at least one queued job, \<open>ClaimJob\<close> returns a job that was
  queued and whose identity is the least among all queued jobs, whatever their repos.
  Consequently, on a store of the current layout with nothing queued, three jobs
  enqueued for \<open>c0\<close>, \<open>c1\<close>, \<open>c2\<close> get increasing identities, three claims return them in
  that order, and a fourth claim returns no job.
\<close>

theorem claim_fifo:
  assumes "tables d ''review_jobs'' = Some t"
  shows "((\<exists>r \<in> set (rows t). is_queued r) \<longrightarrow>
            (\<exists>j d'. ClaimJob w now d = (Inr (Some (claim_row w now j)), d') \<and>
               j \<in> set (rows t) \<and> is_queued j \<and>
               job_id j = Min (job_id ` {r \<in> set (rows t). is_queued r}) \<and>
               job_id (claim_row w now j) = job_id j \<and>
               (\<forall>r \<in> set (rows t). is_queued r \<longrightarrow> job_id j \<le> job_id r))) \<and>
         (cols t = review_jobs_cols \<and> (\<forall>r \<in> set (rows t). \<not> is_queued r) \<longrightarrow>
            (\<exists>j0 d1 j1 d2 j2 d3 k0 e1 k1 e2 k2 e3.
               EnqueueJob rp0 cm0 c0 a0 n0 d = (Inr j0, d1) \<and>
               EnqueueJob rp1 cm1 c1 a1 n1 d1 = (Inr j1, d2) \<and>
               EnqueueJob rp2 cm2 c2 a2 n2 d2 = (Inr j2, d3) \<and>
               ClaimJob w0 s0 d3 = (Inr (Some k0), e1) \<and>
               ClaimJob w1 s1 e1 = (Inr (Some k1), e2) \<and>
               ClaimJob w2 s2 e2 = (Inr (Some k2), e3) \<and>
               ClaimJob w3 s3 e3 = (Inr None, e3) \<and>
               job_id k0 = job_id j0 \<and> job_id k1 = job_id j1 \<and> job_id k2 = job_id j2 \<and>
               getv k0 ''git_ref'' = TextV c0 \<and> getv k1 ''git_ref'' = TextV c1 \<and>
               getv k2 ''git_ref'' = TextV c2 \<and>
               job_id j0 < job_id j1 \<and> job_id j1 < job_id j2))"
proof (intro conjI impI)
  assume "\<exists>r \<in> set (rows t). is_queued r"
  then show "\<exists>j d'. ClaimJob w now d = (Inr (Some (claim_row w now j)), d') \<and>
               j \<in> set (rows t) \<and> is_queued j \<and>
               job_id j = Min (job_id ` {r \<in> set (rows t). is_queued r}) \<and>
               job_id (claim_row w now j) = job_id j \<and>
               (\<forall>r \<in> set (rows t). is_queued r \<longrightarrow> job_id j \<le> job_id r)"
    by (rule ClaimJob_oldest[OF assms])
next
  assume a: "cols t = review_jobs_cols \<and> (\<forall>r \<in> set (rows t). \<not> is_queued r)"
  then have c: "cols t = review_jobs_cols" and nq: "\<forall>r \<in> set (rows t). \<not> is_queued r"
    by blast+
  show "\<exists>j0 d1 j1 d2 j2 d3 k0 e1 k1 e2 k2 e3.
               EnqueueJob rp0 cm0 c0 a0 n0 d = (Inr j0, d1) \<and>
               EnqueueJob rp1 cm1 c1 a1 n1 d1 = (Inr j1, d2) \<and>
               EnqueueJob rp2 cm2 c2 a2 n2 d2 = (Inr j2, d3) \<and>
               ClaimJob w0 s0 d3 = (Inr (Some k0), e1) \<and>
               ClaimJob w1 s1 e1 = (Inr (Some k1), e2) \<and>
               ClaimJob w2 s2 e2 = (Inr (Some k2), e3) \<and>
               ClaimJob w3 s3 e3 = (Inr None, e3) \<and>
               job_id k0 = job_id j0 \<and> job_id k1 = job_id j1 \<and> job_id k2 = job_id j2 \<and>
               getv k0 ''git_ref'' = TextV c0 \<and> getv k1 ''git_ref'' = TextV c1 \<and>
               getv k2 ''git_ref'' = TextV c2 \<and>
               job_id j0 < job_id j1 \<and> job_id j1 < job_id j2"
    by (rule three_enqueued_claimed[OF assms c nq])
qed

theorem claim_fifo_witness:
  "tables db_queue ''review_jobs'' = Some queue_table \<and>
   (\<exists>r \<in> set (rows queue_table). is_queued r) \<and>
   (\<exists>j d'. ClaimJob ''worker-a'' ''2024-01-02 00:00:00'' db_queue =
              (Inr (Some (claim_row ''worker-a'' ''2024-01-02 00:00:00'' j)), d') \<and>
            job_id j = 2) \<and>
   tables db_no_jobs ''review_jobs'' = Some \<lparr>cols = review_jobs_cols, rows = []\<rparr> \<and>
   (\<exists>j0 d1 j1 d2 j2 d3 k0 e1 k1 e2 k2 e3.
      EnqueueJob 1 1 ''c0'' ''codex'' ''2024-01-01 00:00:00'' db_no_jobs = (Inr j0, d1) \<and>
      EnqueueJob 1 2 ''c1'' ''codex'' ''2024-01-01 00:00:01'' d1 = (Inr j1, d2) \<and>
      EnqueueJob 1 3 ''c2'' ''codex'' ''2024-01-01 00:00:02'' d2 = (Inr j2, d3) \<and>
      ClaimJob ''worker-0'' ''2024-01-01 00:01:00'' d3 = (Inr (Some k0), e1) \<and>
      ClaimJob ''worker-1'' ''2024-01-01 00:01:00'' e1 = (Inr (Some k1), e2) \<and>
      ClaimJob ''worker-2'' ''2024-01-01 00:01:00'' e2 = (Inr (Some k2), e3) \<and>
      ClaimJob ''worker-3'' ''2024-01-01 00:01:00'' e3 = (Inr None, e3) \<and>
      getv k0 ''git_ref'' = TextV ''c0'' \<and> getv k1 ''git_ref'' = TextV ''c1'' \<and>
      getv k2 ''git_ref'' = TextV ''c2'')"
proof -
  have h1: "tables db_queue ''review_jobs'' = Some queue_table" by (simp add: db_queue_def)
  have q: "{r \<in> set (rows queue_table). is_queued r} = set (filter is_queued (rows queue_table))"
    by simp
  have h2: "\<exists>r \<in> set (rows queue_table). is_queued r"
    using queue_table_queued by (metis (no_types, lifting) filter_empty_conv list.distinct(1))
  have mn: "Min (job_id ` {r \<in> set (rows queue_table). is_queued r}) = 2"
    unfolding q queue_table_queued by (simp add: job_id_def rowid_at_def job_row_def getv_def)
  from claim_fifo[OF h1, THEN conjunct1, rule_format, OF h2,
      of "''worker-a''" "''2024-01-02 00:00:00''"]
  obtain j d' where "ClaimJob ''worker-a'' ''2024-01-02 00:00:00'' db_queue =
              (Inr (Some (claim_row ''worker-a'' ''2024-01-02 00:00:00'' j)), d')"
    and "job_id j = Min (job_id ` {r \<in> set (rows queue_table). is_queued r})"
    by blast
  then have a: "\<exists>j d'. ClaimJob ''worker-a'' ''2024-01-02 00:00:00'' db_queue =
              (Inr (Some (claim_row ''worker-a'' ''2024-01-02 00:00:00'' j)), d') \<and> job_id j = 2"
    unfolding mn by blast
  let ?e = "\<lparr>cols = review_jobs_cols, rows = []\<rparr>"
  have h3: "tables db_no_jobs ''review_jobs'' = Some ?e" by (simp add: db_no_jobs_def)
  have h4: "cols ?e = review_jobs_cols \<and> (\<forall>r \<in> set (rows ?e). \<not> is_queued r)" by simp
  from claim_fifo[OF h3, THEN conjunct2, rule_format, OF h4,
      of 1 1 "''c0''" "''codex''" "''2024-01-01 00:00:00''"
         1 2 "''c1''" "''codex''" "''2024-01-01 00:00:01''"
         1 3 "''c2''" "''codex''" "''2024-01-01 00:00:02''"
         "''worker-0''" "''2024-01-01 00:01:00''" "''worker-1''" "''2024-01-01 00:01:00''"
         "''worker-2''" "''2024-01-01 00:01:00''" "''worker-3''" "''2024-01-01 00:01:00''"]
  have b: "\<exists>j0 d1 j1 d2 j2 d3 k0 e1 k1 e2 k2 e3.
      EnqueueJob 1 1 ''c0'' ''codex'' ''2024-01-01 00:00:00'' db_no_jobs = (Inr j0, d1) \<and>
      EnqueueJob 1 2 ''c1'' ''codex'' ''2024-01-01 00:00:01'' d1 = (Inr j1, d2) \<and>
      EnqueueJob 1 3 ''c2'' ''codex'' ''2024-01-01 00:00:02'' d2 = (Inr j2, d3) \<and>
      ClaimJob ''worker-0'' ''2024-01-01 00:01:00'' d3 = (Inr (Some k0), e1) \<and>
      ClaimJob ''worker-1'' ''2024-01-01 00:01:00'' e1 = (Inr (Some k1), e2) \<and>
      ClaimJob ''worker-2'' ''2024-01-01 00:01:00'' e2 = (Inr (Some k2), e3) \<and>
      ClaimJob ''worker-3'' ''2024-01-01 00:01:00'' e3 = (Inr None, e3) \<and>
      getv k0 ''git_ref'' = TextV ''c0'' \<and> getv k1 ''git_ref'' = TextV ''c1'' \<and>
      getv k2 ''git_ref'' = TextV ''c2''"
    apply (elim exE conjE)
    subgoal for j0 d1 j1 d2 j2 d3 k0 e1 k1 e2 k2 e3
      apply (rule exI[of _ j0], rule exI[of _ d1], rule exI[of _ j1], rule exI[of _ d2])
      apply (rule exI[of _ j2], rule exI[of _ d3], rule exI[of _ k0], rule exI[of _ e1])
      apply (rule exI[of _ k1], rule exI[of _ e2], rule exI[of _ k2], rule exI[of _ e3])
      apply (intro conjI)
      apply assumption+
      done
    done
  from h1 h2 a h3 b show ?thesis by (intro conjI)
qed

section \<open>Every queued job goes to exactly one caller\<close>



section \<open>Get-or-create is idempotent\<close>



end
